theory Spec2Isabelle
  imports Complex_Main "HOL-Library.Word" "HOL-Library.Monad_Syntax"
begin

section \<open>The lease calculator client (src/app/page.tsx)\<close>

text \<open>
  The page is a React component. Its state is a record, an event handler is a function
  from the state to the new state, and what the component renders is a function of the
  state. JavaScript strings are modelled as \<^typ>\<open>string\<close>, read as the UTF-8 bytes of
  the text: the string tests of the page (emptiness, a suffix of ASCII characters,
  appending ASCII characters) give the same answer on UTF-8 bytes as on UTF-16 code
  units.
\<close>

subsection \<open>JavaScript values\<close>

text \<open>
  A JavaScript number is NaN, an infinity or a finite binary64 value. A finite value is
  the rational number it denotes (every binary64 value is one); minus zero is zero.
\<close>

datatype number = NaN | PosInf | NegInf | Finite rat

fun isNaN :: "number \<Rightarrow> bool" where
  "isNaN NaN = True"
| "isNaN _ = False"

text \<open>What \<open>JSON.parse\<close> returns. An object keeps its members in the order of the text.\<close>

datatype json =
    JNull
  | JBool bool
  | JNum number
  | JStr string
  | JArr "json list"
  | JObj "(string \<times> json) list"

text \<open>
  \<open>member k kvs\<close> is the property \<open>k\<close> of the parsed object, \<open>None\<close> for
  \<open>undefined\<close>. \<open>JSON.parse\<close> keeps the last of several members with one name.
\<close>

definition member :: "string \<Rightarrow> (string \<times> json) list \<Rightarrow> json option" where
  "member k kvs = map_of (rev kvs) k"

text \<open>ToBoolean on a parsed value.\<close>

fun truthy :: "json \<Rightarrow> bool" where
  "truthy JNull = False"
| "truthy (JBool b) = b"
| "truthy (JNum n) = (n \<noteq> NaN \<and> n \<noteq> Finite 0)"
| "truthy (JStr s) = (s \<noteq> [])"
| "truthy (JArr _) = True"
| "truthy (JObj _) = True"

text \<open>ToBoolean on a value that may be \<open>undefined\<close> or \<open>null\<close>.\<close>

fun truthy_opt :: "json option \<Rightarrow> bool" where
  "truthy_opt None = False"
| "truthy_opt (Some v) = truthy v"

text \<open>\<open>s.endsWith(t)\<close>.\<close>

definition endsWith :: "string \<Rightarrow> string \<Rightarrow> bool" where
  "endsWith s t = (length t \<le> length s \<and> drop (length s - length t) s = t)"

subsection \<open>The state of the page\<close>

datatype Status = Idle | Uploading | Done | Error

text \<open>The two properties of a \<open>File\<close> that the page reads.\<close>

record File =
  name :: string
  fsize :: nat

text \<open>
  What a \<open>catch\<close> clause receives: an \<open>Error\<close> instance with its message, the
  \<open>TypeError\<close> that reading a property of \<open>null\<close> raises (an \<open>Error\<close> instance too; its
  message is the engine's), or any other value.
\<close>

datatype thrown = ErrorObj string | NullTypeError | NonError

text \<open>
  The texts that \<open>setErrorMsg\<close> is called with, one constructor for each call of the
  source:
  \<^item> \<open>MsgEmpty\<close>: the empty string;
  \<^item> \<open>MsgNotXlsx\<close>: the text of handleFileSelect (please upload a file in .xlsx format);
  \<^item> \<open>MsgNoFile\<close>: the first text of handleSubmit (please choose an Excel file first);
  \<^item> \<open>MsgNoMonths\<close>: the second text of handleSubmit (please fill in the start and
    the end month);
  \<^item> \<open>MsgServer v\<close>: the value \<open>v\<close> of \<open>data.error\<close>, when it is truthy;
  \<^item> \<open>MsgRequestFailed n\<close>: the template text "request failed (n)" with the HTTP status;
  \<^item> \<open>MsgNetwork t\<close>: the text "network error, please retry later." followed by the
    message of \<open>t\<close> when \<open>t\<close> is an \<open>Error\<close>, and by nothing otherwise.
\<close>

datatype message =
    MsgEmpty
  | MsgNotXlsx
  | MsgNoFile
  | MsgNoMonths
  | MsgServer json
  | MsgRequestFailed nat
  | MsgNetwork thrown

text \<open>The \<open>useState\<close> cells of \<open>Home\<close> (\<open>file_sel\<close> is the cell \<open>file\<close>, \<open>fsize\<close> the property
  \<open>size\<close>). The result cell holds the parsed body as it
  came (\<open>setResult(data)\<close> checks nothing), \<open>None\<close> for \<open>null\<close>.\<close>

record state =
  file_sel :: "File option"
  startMonth :: string
  endMonth :: string
  status :: Status
  result :: "json option"
  errorMsg :: message
  isDragging :: bool

subsection \<open>Numbers as text\<close>

definition digit_char :: "nat \<Rightarrow> char" where
  "digit_char d = ''0123456789'' ! d"

text \<open>The decimal digits of a natural number, without leading zeros.\<close>

fun digits :: "nat \<Rightarrow> string" where
  "digits n = (if n < 10 then [digit_char n] else digits (n div 10) @ [digit_char (n mod 10)])"

declare digits.simps [simp del]

text \<open>\<open>String(i)\<close> and \<open>`${i}`\<close> for an integral number \<open>i\<close> below \<open>10^21\<close> in size.\<close>

definition String_of_int :: "int \<Rightarrow> string" where
  "String_of_int i = (if i < 0 then CHR ''-'' # digits (nat (- i)) else digits (nat i))"

text \<open>\<open>s.padStart(n, c)\<close> for a one-character pad string.\<close>

definition padStart :: "nat \<Rightarrow> char \<Rightarrow> string \<Rightarrow> string" where
  "padStart n c s = replicate (n - length s) c @ s"

subsection \<open>getDefaultDates\<close>

text \<open>
  The two methods of \<open>new Date()\<close> that getDefaultDates calls: the year, and the month
  counted from 0 (January) to 11 (December).
\<close>

record Date =
  getFullYear :: int
  getMonth :: nat

text \<open>The object \<open>{ start, end }\<close> that is returned.\<close>

record DefaultDates =
  start :: string
  end' :: string

text \<open>
  The source also binds \<open>endMonth\<close>, which it never reads; it is left out. The ternary
  in the template of \<open>end\<close> is \<open>now.getMonth() + 2 > 12 ? 1 : now.getMonth() + 2\<close>.
\<close>

definition getDefaultDates :: "Date \<Rightarrow> DefaultDates" where
  "getDefaultDates now =
     (let startYear = getFullYear now;
          startMonth' = padStart 2 CHR ''0'' (String_of_int (int (getMonth now) + 1));
          endYear = (if getMonth now \<ge> 11 then getFullYear now + 1 else getFullYear now)
      in \<lparr>start = String_of_int startYear @ ''-'' @ startMonth',
          end' = String_of_int endYear @ ''-'' @
                 padStart 2 CHR ''0''
                   (String_of_int (if int (getMonth now) + 2 > 12 then 1
                                   else int (getMonth now) + 2))\<rparr>)"

text \<open>The state of \<open>Home\<close> when it is first rendered at the date \<open>now\<close>.\<close>

definition Home_initial :: "Date \<Rightarrow> state" where
  "Home_initial now =
     \<lparr>file_sel = None,
      startMonth = start (getDefaultDates now),
      endMonth = end' (getDefaultDates now),
      status = Idle, result = None, errorMsg = MsgEmpty, isDragging = False\<rparr>"

subsection \<open>Reading month and date strings\<close>

text \<open>
  What a month string and a date string denote. \<open>parse_month\<close> accepts exactly the
  strings \<open>YYYY-MM\<close> of four digits, a hyphen and two digits that give a month from 01
  to 12; \<open>parse_iso_date\<close> accepts \<open>YYYY-MM-DD\<close> with such a month and a day that
  the month has. Neither is called by the page: they say what its strings mean.
\<close>

fun index_of :: "'a \<Rightarrow> 'a list \<Rightarrow> nat option" where
  "index_of c [] = None"
| "index_of c (x # xs) = (if c = x then Some 0 else map_option Suc (index_of c xs))"

definition digit_val :: "char \<Rightarrow> nat option" where
  "digit_val c = index_of c ''0123456789''"

definition is_leap :: "nat \<Rightarrow> bool" where
  "is_leap y = ((y mod 4 = 0 \<and> y mod 100 \<noteq> 0) \<or> y mod 400 = 0)"

definition days_in_month :: "nat \<Rightarrow> nat \<Rightarrow> nat" where
  "days_in_month y m =
     (if m = 2 then (if is_leap y then 29 else 28)
      else if m = 4 \<or> m = 6 \<or> m = 9 \<or> m = 11 then 30 else 31)"

fun parse_month :: "string \<Rightarrow> (nat \<times> nat) option" where
  "parse_month [a, b, c, d, h, e, f] =
     do {
       a' \<leftarrow> digit_val a; b' \<leftarrow> digit_val b; c' \<leftarrow> digit_val c; d' \<leftarrow> digit_val d;
       e' \<leftarrow> digit_val e; f' \<leftarrow> digit_val f;
       if h = CHR ''-'' \<and> 1 \<le> e' * 10 + f' \<and> e' * 10 + f' \<le> 12
       then Some (a' * 1000 + b' * 100 + c' * 10 + d', e' * 10 + f')
       else None
     }"
| "parse_month _ = None"

definition parse_iso_date :: "string \<Rightarrow> (nat \<times> nat \<times> nat) option" where
  "parse_iso_date s =
     (if length s = 10 \<and> s ! 7 = CHR ''-''
      then do {
        (y, m) \<leftarrow> parse_month (take 7 s);
        g' \<leftarrow> digit_val (s ! 8); h' \<leftarrow> digit_val (s ! 9);
        if 1 \<le> g' * 10 + h' \<and> g' * 10 + h' \<le> days_in_month y m
        then Some (y, m, g' * 10 + h')
        else None
      }
      else None)"

text \<open>The calendar month after a month.\<close>

definition next_month :: "nat \<times> nat \<Rightarrow> nat \<times> nat" where
  "next_month ym = (if snd ym = 12 then (fst ym + 1, 1) else (fst ym, snd ym + 1))"

subsection \<open>formatMoney\<close>

text \<open>
  The regular expression \<open>/\B(?=(\d{3})+(?!\d))/g\<close> matches the empty string at every
  position that is not a word boundary (the characters before and after are both word
  characters or both not; the ends of the string count as not) and from which a run of
  digits starts whose length is a positive multiple of three: \<open>(\d{3})+\<close> must end
  where \<open>(?!\d)\<close> holds, that is at the end of the run. \<open>replace\<close> puts a comma at
  each such position.
\<close>

definition is_digit :: "char \<Rightarrow> bool" where
  "is_digit c = (c \<in> set ''0123456789'')"

definition is_word_char :: "char \<Rightarrow> bool" where
  "is_word_char c =
     (c \<in> set ''abcdefghijklmnopqrstuvwxyzABCDEFGHIJKLMNOPQRSTUVWXYZ0123456789_'')"

fun digit_run :: "string \<Rightarrow> nat" where
  "digit_run [] = 0"
| "digit_run (c # cs) = (if is_digit c then Suc (digit_run cs) else 0)"

text \<open>\<open>group_from prev s\<close>: the rest \<open>s\<close> of the string with its commas, \<open>prev\<close> telling
  whether the character before it is a word character.\<close>

fun group_from :: "bool \<Rightarrow> string \<Rightarrow> string" where
  "group_from prev [] = []"
| "group_from prev (c # cs) =
     (if prev = is_word_char c \<and> 0 < digit_run (c # cs) \<and> digit_run (c # cs) mod 3 = 0
      then CHR '','' # c # group_from (is_word_char c) cs
      else c # group_from (is_word_char c) cs)"

definition insert_commas :: "string \<Rightarrow> string" where
  "insert_commas s = group_from False s"

text \<open>
  \<open>n.toFixed(2)\<close> (ECMAScript, Number.prototype.toFixed): a number that is not finite
  gives its name; a negative number gives a minus sign and the text of its magnitude;
  a magnitude below \<open>10^21\<close> gives the integer \<open>k\<close> for which \<open>k / 100\<close> is nearest to
  it, the larger one of two, written in decimal digits, padded with zeros to three
  digits, with a point before the last two. For a magnitude from \<open>10^21\<close> on the result
  is that of Number::toString (exponent notation), which is not modelled:
  \<open>NumberToString x\<close> stands for it.
\<close>

datatype numtext = Str string | NumberToString rat

definition toFixed2 :: "number \<Rightarrow> numtext" where
  "toFixed2 n =
     (case n of
        NaN \<Rightarrow> Str ''NaN''
      | PosInf \<Rightarrow> Str ''Infinity''
      | NegInf \<Rightarrow> Str ''-Infinity''
      | Finite x \<Rightarrow>
          if \<bar>x\<bar> \<ge> 10 ^ 21 then NumberToString x
          else let s = (if x < 0 then ''-'' else []);
                   k = nat \<lfloor>\<bar>x\<bar> * 100 + 1 / 2\<rfloor>;
                   m = (if length (digits k) \<le> 2
                        then replicate (3 - length (digits k)) CHR ''0'' @ digits k
                        else digits k)
               in Str (s @ take (length m - 2) m @ ''.'' @ drop (length m - 2) m))"

text \<open>
  What formatMoney returns: \<open>Dash\<close> is the dash shown for a missing value, \<open>Yen t\<close> the
  yen sign followed by \<open>t\<close>, \<open>YenNumberToString x\<close> the yen sign followed by the text of
  Number::toString with the commas of the regular expression. The argument is \<open>None\<close>
  for \<open>null\<close> and \<open>undefined\<close>.
\<close>

datatype money_text = Dash | Yen string | YenNumberToString rat

definition formatMoney :: "number option \<Rightarrow> money_text" where
  "formatMoney n =
     (case n of
        None \<Rightarrow> Dash
      | Some v \<Rightarrow>
          if isNaN v then Dash
          else (case toFixed2 v of
                  Str t \<Rightarrow> Yen (insert_commas t)
                | NumberToString x \<Rightarrow> YenNumberToString x))"





subsection \<open>The result as declared\<close>

text \<open>
  The interfaces \<open>ContractSummary\<close> and \<open>CalcResult\<close>. The member \<open>files\<close> has the
  fields \<open>lease\<close>, \<open>single\<close> and \<open>income\<close>; they are named \<open>lease_b64\<close>,
  \<open>single_b64\<close> and \<open>income_b64\<close> here, \<open>income\<close> being a field of the summary row.
  The field \<open>notes\<close> of a row is named \<open>row_notes\<close>.
\<close>

record ContractSummary =
  customer :: string
  merchant_id :: string
  receivable :: number
  income :: number
  bank_matched :: number
  invoice_matched :: number
  row_notes :: string

record Files =
  lease_b64 :: string
  single_b64 :: string
  income_b64 :: string

record CalcResult =
  summary :: "ContractSummary list"
  total_receivable :: number
  total_income :: number
  contract_count :: number
  files :: Files

text \<open>
  The parsed values that have the declared shape, read as the records. The page itself
  never checks the shape; \<open>as_CalcResult\<close> says which bodies the declaration
  describes.
\<close>

fun as_string :: "json option \<Rightarrow> string option" where
  "as_string (Some (JStr s)) = Some s"
| "as_string _ = None"

fun as_number :: "json option \<Rightarrow> number option" where
  "as_number (Some (JNum n)) = Some n"
| "as_number _ = None"

fun as_object :: "json option \<Rightarrow> (string \<times> json) list option" where
  "as_object (Some (JObj kvs)) = Some kvs"
| "as_object _ = None"

fun as_array :: "json option \<Rightarrow> json list option" where
  "as_array (Some (JArr vs)) = Some vs"
| "as_array _ = None"

definition as_ContractSummary :: "json \<Rightarrow> ContractSummary option" where
  "as_ContractSummary v =
     do {
       kvs \<leftarrow> as_object (Some v);
       c \<leftarrow> as_string (member ''customer'' kvs);
       m \<leftarrow> as_string (member ''merchant_id'' kvs);
       r \<leftarrow> as_number (member ''receivable'' kvs);
       i \<leftarrow> as_number (member ''income'' kvs);
       b \<leftarrow> as_number (member ''bank_matched'' kvs);
       iv \<leftarrow> as_number (member ''invoice_matched'' kvs);
       n \<leftarrow> as_string (member ''notes'' kvs);
       Some \<lparr>customer = c, merchant_id = m, receivable = r, income = i,
             bank_matched = b, invoice_matched = iv, row_notes = n\<rparr>
     }"

definition as_Files :: "json \<Rightarrow> Files option" where
  "as_Files v =
     do {
       kvs \<leftarrow> as_object (Some v);
       l \<leftarrow> as_string (member ''lease'' kvs);
       s \<leftarrow> as_string (member ''single'' kvs);
       i \<leftarrow> as_string (member ''income'' kvs);
       Some \<lparr>lease_b64 = l, single_b64 = s, income_b64 = i\<rparr>
     }"

definition as_CalcResult :: "json \<Rightarrow> CalcResult option" where
  "as_CalcResult v =
     do {
       kvs \<leftarrow> as_object (Some v);
       rows \<leftarrow> as_array (member ''summary'' kvs);
       sm \<leftarrow> those (map as_ContractSummary rows);
       tr \<leftarrow> as_number (member ''total_receivable'' kvs);
       ti \<leftarrow> as_number (member ''total_income'' kvs);
       cc \<leftarrow> as_number (member ''contract_count'' kvs);
       fv \<leftarrow> member ''files'' kvs;
       fs \<leftarrow> as_Files fv;
       Some \<lparr>summary = sm, total_receivable = tr, total_income = ti,
             contract_count = cc, files = fs\<rparr>
     }"

subsection \<open>The results block\<close>

text \<open>
  The seven columns of the table, in the order of the header row: customer name,
  merchant number, total receivable, total income, bank matched, invoice matched, notes.
\<close>

datatype column =
  ColCustomer | ColMerchant | ColReceivable | ColIncome | ColBank | ColInvoice | ColNotes

definition table_head :: "column list" where
  "table_head =
     [ColCustomer, ColMerchant, ColReceivable, ColIncome, ColBank, ColInvoice, ColNotes]"

text \<open>The content of a table cell: a string of the row, or an amount formatted by
  formatMoney.\<close>

datatype cell = Text string | Money money_text

text \<open>The \<open>td\<close> elements of one row; the last is \<open>row.notes || ""\<close>.\<close>

definition table_row :: "ContractSummary \<Rightarrow> cell list" where
  "table_row row =
     [Text (customer row),
      Text (merchant_id row),
      Money (formatMoney (Some (receivable row))),
      Money (formatMoney (Some (income row))),
      Money (formatMoney (Some (bank_matched row))),
      Money (formatMoney (Some (invoice_matched row))),
      Text (if row_notes row \<noteq> [] then row_notes row else [])]"

text \<open>
  The three summary cards and the table. The table is there when
  \<open>result.summary && result.summary.length > 0\<close>; its body is
  \<open>result.summary.map(...)\<close>.
\<close>

record results_block =
  card_contract_count :: number
  card_total_receivable :: money_text
  card_total_income :: money_text
  detail_table :: "(column list \<times> cell list list) option"

definition render_results :: "CalcResult \<Rightarrow> results_block" where
  "render_results r =
     \<lparr>card_contract_count = contract_count r,
      card_total_receivable = formatMoney (Some (total_receivable r)),
      card_total_income = formatMoney (Some (total_income r)),
      detail_table =
        (if length (summary r) > 0 then Some (table_head, map table_row (summary r))
         else None)\<rparr>"

text \<open>
  What \<open>Home\<close> shows below the form: nothing, or the results block of a result of the
  declared shape. \<open>Undeclared\<close> stands for what is rendered from a truthy result that
  is not of the declared shape, which is not modelled.
\<close>

datatype results_view = Hidden | Shown results_block | Undeclared

definition Home_results :: "state \<Rightarrow> results_view" where
  "Home_results st =
     (case result st of
        None \<Rightarrow> Hidden
      | Some d \<Rightarrow>
          if status st = Done \<and> truthy d
          then (case as_CalcResult d of Some r \<Rightarrow> Shown (render_results r)
                | None \<Rightarrow> Undeclared)
          else Hidden)"

subsection \<open>downloadBase64\<close>

text \<open>
  \<open>atob\<close> (HTML, forgiving-base64 decode): ASCII whitespace is removed; if the length
  is then a multiple of four, one or two final \<open>=\<close> are removed; a length that leaves
  the remainder 1 and any character outside the alphabet fail with an
  InvalidCharacterError; each character gives six bits, four characters three bytes, a
  rest of two or three characters one or two bytes. The result is a string of code
  units, given here as the list of their codes.
\<close>

datatype dom_exception = InvalidCharacterError

definition b64_alphabet :: string where
  "b64_alphabet = ''ABCDEFGHIJKLMNOPQRSTUVWXYZabcdefghijklmnopqrstuvwxyz0123456789+/''"

definition b64_value :: "char \<Rightarrow> nat option" where
  "b64_value c = index_of c b64_alphabet"

definition ascii_whitespace :: "char \<Rightarrow> bool" where
  "ascii_whitespace c = (c \<in> set [CHR 0x09, CHR 0x0A, CHR 0x0C, CHR 0x0D, CHR 0x20])"

definition strip_padding :: "string \<Rightarrow> string" where
  "strip_padding s =
     (if length s mod 4 = 0 \<and> s \<noteq> [] \<and> last s = CHR ''=''
      then (if butlast s \<noteq> [] \<and> last (butlast s) = CHR ''=''
            then butlast (butlast s) else butlast s)
      else s)"

fun decode_sextets :: "nat list \<Rightarrow> nat list" where
  "decode_sextets (a # b # c # d # rest) =
     [a * 4 + b div 16, (b mod 16) * 16 + c div 4, (c mod 4) * 64 + d] @ decode_sextets rest"
| "decode_sextets [a, b, c] = [a * 4 + b div 16, (b mod 16) * 16 + c div 4]"
| "decode_sextets [a, b] = [a * 4 + b div 16]"
| "decode_sextets _ = []"

definition atob :: "string \<Rightarrow> dom_exception + nat list" where
  "atob s =
     (let d = strip_padding (filter (\<lambda>c. \<not> ascii_whitespace c) s)
      in if length d mod 4 = 1 then Inl InvalidCharacterError
         else (case those (map b64_value d) of
                 None \<Rightarrow> Inl InvalidCharacterError
               | Some vs \<Rightarrow> Inr (decode_sextets vs)))"

text \<open>
  The loop \<open>for (let i = 0; i < binary.length; i++) bytes[i] = binary.charCodeAt(i)\<close>.
  Storing into a \<open>Uint8Array\<close> keeps the value modulo 256.
\<close>

function fill_bytes :: "nat list \<Rightarrow> 8 word list \<Rightarrow> nat \<Rightarrow> 8 word list" where
  "fill_bytes binary bytes i =
     (if i < length binary
      then fill_bytes binary (bytes[i := of_nat (binary ! i)]) (Suc i)
      else bytes)"
  by pat_completeness auto
termination
  by (relation "measure (\<lambda>(binary, bytes, i). length binary - i)") auto

declare fill_bytes.simps [simp del]

text \<open>What the click on the created link saves: the bytes and the type of the blob,
  and the file name.\<close>

record download =
  blob_bytes :: "8 word list"
  blob_type :: string
  download_name :: string

definition downloadBase64 :: "string \<Rightarrow> string \<Rightarrow> dom_exception + download" where
  "downloadBase64 b64 filename =
     (case atob b64 of
        Inl e \<Rightarrow> Inl e
      | Inr binary \<Rightarrow>
          Inr \<lparr>blob_bytes = fill_bytes binary (replicate (length binary) 0) 0,
               blob_type =
                 ''application/vnd.openxmlformats-officedocument.spreadsheetml.sheet'',
               download_name = filename\<rparr>)"

text \<open>The three download buttons of the results block.\<close>

datatype button = DownloadLease | DownloadSingle | DownloadIncome

fun click :: "CalcResult \<Rightarrow> button \<Rightarrow> dom_exception + download" where
  "click r DownloadLease = downloadBase64 (lease_b64 (files r)) ''lease.xlsx''"
| "click r DownloadSingle = downloadBase64 (single_b64 (files r)) ''single.xlsx''"
| "click r DownloadIncome = downloadBase64 (income_b64 (files r)) ''income.xlsx''"

subsection \<open>handleFileSelect\<close>

definition handleFileSelect :: "File \<Rightarrow> state \<Rightarrow> state" where
  "handleFileSelect f st =
     (if \<not> endsWith (name f) ''.xlsx''
      then st\<lparr>errorMsg := MsgNotXlsx, status := Error\<rparr>
      else st\<lparr>file_sel := Some f, status := Idle, errorMsg := MsgEmpty, result := None\<rparr>)"

subsection \<open>handleSubmit\<close>

text \<open>
  The request that \<open>fetch\<close> is called with: the URL, the method and the entries of the
  \<open>FormData\<close> body in the order they were appended.
\<close>

datatype form_value = FileValue File | TextValue string

record request =
  url :: string
  http_method :: string
  body :: "(string \<times> form_value) list"

text \<open>An awaited promise either gives a value or throws.\<close>

datatype 'a completion = Returns 'a | Throws thrown

text \<open>
  The properties of the \<open>Response\<close> that the page reads: \<open>resp.ok\<close>, \<open>resp.status\<close>
  and the outcome of awaiting \<open>resp.json()\<close>.
\<close>

record response =
  ok :: bool
  http_status :: nat
  json_result :: "json completion"

text \<open>
  \<open>data.error\<close>: reading a property of \<open>null\<close> throws; a boolean, a number, a string
  and an array have no such property (\<open>undefined\<close>, \<open>None\<close>); an object gives its member.
\<close>

fun data_error :: "json \<Rightarrow> thrown + json option" where
  "data_error JNull = Inl NullTypeError"
| "data_error (JObj kvs) = Inr (member ''error'' kvs)"
| "data_error _ = Inr None"

text \<open>The \<open>catch\<close> clause.\<close>

definition catch_clause :: "thrown \<Rightarrow> state \<Rightarrow> state" where
  "catch_clause e st = st\<lparr>errorMsg := MsgNetwork e, status := Error\<rparr>"

text \<open>
  The \<open>try\<close> block from the point where \<open>fetch\<close> has settled. The test
  \<open>!resp.ok || data.error\<close> and the argument \<open>data.error || ...\<close> of \<open>setErrorMsg\<close>
  both read \<open>data.error\<close>, so a \<open>null\<close> body throws on either path.
\<close>

definition after_fetch :: "response completion \<Rightarrow> state \<Rightarrow> state" where
  "after_fetch r st =
     (case r of
        Throws e \<Rightarrow> catch_clause e st
      | Returns resp \<Rightarrow>
          (case json_result resp of
             Throws e \<Rightarrow> catch_clause e st
           | Returns data \<Rightarrow>
               (case data_error data of
                  Inl e \<Rightarrow> catch_clause e st
                | Inr err \<Rightarrow>
                    if \<not> ok resp \<or> truthy_opt err
                    then st\<lparr>errorMsg :=
                              (case err of
                                 Some v \<Rightarrow> if truthy v then MsgServer v
                                           else MsgRequestFailed (http_status resp)
                               | None \<Rightarrow> MsgRequestFailed (http_status resp)),
                            status := Error\<rparr>
                    else st\<lparr>result := Some data, status := Done\<rparr>)))"

text \<open>The three setters that run before the request is built.\<close>

definition submitting :: "state \<Rightarrow> state" where
  "submitting st = st\<lparr>status := Uploading, errorMsg := MsgEmpty, result := None\<rparr>"

definition build_request :: "File \<Rightarrow> string \<Rightarrow> string \<Rightarrow> request" where
  "build_request f sm em =
     \<lparr>url = ''/api/calculate'', http_method = ''POST'',
      body = [(''file'', FileValue f),
              (''start'', TextValue (sm @ ''-01'')),
              (''end'', TextValue (em @ ''-01''))]\<rparr>"

text \<open>
  handleSubmit, given how the network answers a request. It returns the state once the
  handler has finished and the requests it has sent, in order.
\<close>

definition handleSubmit ::
  "(request \<Rightarrow> response completion) \<Rightarrow> state \<Rightarrow> state \<times> request list" where
  "handleSubmit fetch st =
     (case file_sel st of
        None \<Rightarrow> (st\<lparr>errorMsg := MsgNoFile, status := Error\<rparr>, [])
      | Some f \<Rightarrow>
          if startMonth st = [] \<or> endMonth st = []
          then (st\<lparr>errorMsg := MsgNoMonths, status := Error\<rparr>, [])
          else let req = build_request f (startMonth st) (endMonth st)
               in (after_fetch (fetch req) (submitting st), [req]))"

subsection \<open>What the page shows\<close>




section \<open>The calculation engine, from the specification\<close>

text \<open>
  Modelled from the spec: the calculation engine (lib/lease_calculator.py) and the
  request handler (api/calculate.py) are not among the sources; only their caller, the
  page, is. What follows is written from sections 3, 4.2, 4.4, 4.6 and 6 of the
  specification. Amounts are exact rationals ("accumulate at full precision").
\<close>

subsection \<open>Calendar\<close>

text \<open>A date is a triple of year, month and day; \<open>day_number\<close> counts days on one
  line, so that the difference of two day numbers is the number of days between the
  dates.\<close>

definition days_before_year :: "nat \<Rightarrow> int" where
  "days_before_year y =
     365 * int y + int ((y + 3) div 4) - int ((y + 99) div 100) + int ((y + 399) div 400)"

definition days_before_month :: "nat \<Rightarrow> nat \<Rightarrow> int" where
  "days_before_month y m = int (sum_list (map (days_in_month y) [1..<m]))"

fun day_number :: "nat \<times> nat \<times> nat \<Rightarrow> int" where
  "day_number (y, m, d) = days_before_year y + days_before_month y m + int d"

text \<open>
  Spec 3 and 6: the request carries an inclusive range \<open>[start_month, end_month]\<close>.
  The months of the range, each as year and month, in order.
\<close>

definition month_index :: "nat \<times> nat \<Rightarrow> nat" where
  "month_index ym = fst ym * 12 + (snd ym - 1)"

definition month_of_index :: "nat \<Rightarrow> nat \<times> nat" where
  "month_of_index i = (i div 12, i mod 12 + 1)"

definition months_in_range :: "nat \<times> nat \<Rightarrow> nat \<times> nat \<Rightarrow> (nat \<times> nat) list" where
  "months_in_range s e = map month_of_index [month_index s..<Suc (month_index e)]"

subsection \<open>Contracts and the income amortizer\<close>

text \<open>Spec 3, Contract: the expiry date is inclusive, the rent amounts are indexed by
  contract-year.\<close>

record Contract =
  customer_name :: string
  merchant_no :: string
  delivery_date :: "nat \<times> nat \<times> nat"
  expiry_date :: "nat \<times> nat \<times> nat"
  free_rent_days :: nat
  rent_amounts :: "rat list"

text \<open>Spec 4.2: a contract-year boundary is the delivery date plus \<open>k\<close> times 365 days;
  \<open>contract_year_of\<close> counts contract-years from 0.\<close>

definition contract_year_of :: "Contract \<Rightarrow> int \<Rightarrow> nat" where
  "contract_year_of c day = nat ((day - day_number (delivery_date c)) div 365)"

text \<open>Spec 4.2: beyond the last supplied year the last supplied rate is used again.\<close>

definition rent_amount_for :: "Contract \<Rightarrow> nat \<Rightarrow> rat" where
  "rent_amount_for c k =
     (if rent_amounts c = [] then 0
      else if k < length (rent_amounts c) then rent_amounts c ! k
      else last (rent_amounts c))"

text \<open>Spec 4.4: the sum over the full lease span, for each day, of the rent of that
  day's contract-year over 365, free-rent days included.\<close>

definition total_contract_value :: "Contract \<Rightarrow> rat" where
  "total_contract_value c =
     (\<Sum>day \<leftarrow> [day_number (delivery_date c)..day_number (expiry_date c)].
        rent_amount_for c (contract_year_of c day) / 365)"

definition total_lease_days :: "Contract \<Rightarrow> int" where
  "total_lease_days c = day_number (expiry_date c) - day_number (delivery_date c) + 1"

definition daily_income_rate :: "Contract \<Rightarrow> rat" where
  "daily_income_rate c = total_contract_value c / of_int (total_lease_days c)"

text \<open>The days of a month that lie within the lease term.\<close>

definition term_days_in_month :: "Contract \<Rightarrow> nat \<times> nat \<Rightarrow> int" where
  "term_days_in_month c ym =
     max 0 (min (day_number (fst ym, snd ym, days_in_month (fst ym) (snd ym)))
                (day_number (expiry_date c))
            - max (day_number (fst ym, snd ym, 1)) (day_number (delivery_date c)) + 1)"

text \<open>Spec 4.4: the daily rate times the days of the month within the lease term and the
  requested range, with no free-rent carve-out.\<close>

definition month_income :: "Contract \<Rightarrow> nat \<times> nat \<Rightarrow> rat" where
  "month_income c ym = daily_income_rate c * of_int (term_days_in_month c ym)"

text \<open>Spec 4.4: the income of a contract over a range is the sum of its month cells.\<close>

definition contract_total_income :: "Contract \<Rightarrow> nat \<times> nat \<Rightarrow> nat \<times> nat \<Rightarrow> rat" where
  "contract_total_income c s e = (\<Sum>ym \<leftarrow> months_in_range s e. month_income c ym)"

subsection \<open>Rounding and the response\<close>


text \<open>Spec 3, ContractSummaryRow: customer, merchant id, total receivable, total income,
  bank-matched total, invoice-matched total, free-text validation notes.\<close>

record ContractSummaryRow =
  row_customer :: string
  row_merchant_id :: string
  row_total_receivable :: rat
  row_total_income :: rat
  row_bank_matched :: rat
  row_invoice_matched :: rat
  row_validation_notes :: string

text \<open>
  Spec 6: the workbook byte streams are "encoded for transport". The page decodes them
  with \<open>atob\<close>, so the encoding is base64 with padding (RFC 4648); a byte stream is the
  list of the values of its bytes.
\<close>

definition b64_char :: "nat \<Rightarrow> char" where
  "b64_char i = b64_alphabet ! i"

text \<open>The six-bit groups of a byte stream; the last group of a stream whose length is
  no multiple of three is filled with zero bits.\<close>

fun sextets :: "nat list \<Rightarrow> nat list" where
  "sextets (a # b # c # rest) =
     [a div 4, (a mod 4) * 16 + b div 16, (b mod 16) * 4 + c div 64, c mod 64] @ sextets rest"
| "sextets [a, b] = [a div 4, (a mod 4) * 16 + b div 16, (b mod 16) * 4]"
| "sextets [a] = [a div 4, (a mod 4) * 16]"
| "sextets [] = []"

definition b64_encode :: "nat list \<Rightarrow> string" where
  "b64_encode bs =
     map b64_char (sextets bs) @ replicate ((3 - length bs mod 3) mod 3) CHR ''=''"

text \<open>
  Spec 4.6 and 6: the response of a successful calculation contains contract_count,
  total_receivable, total_income (the aggregates across all included contracts), the
  summary array with one row per contract in input order, and the three workbook byte
  streams (summary, monthly receivable, monthly income). The member names are those of
  the page's \<open>CalcResult\<close> and \<open>ContractSummary\<close>.
\<close>

definition summary_row_json :: "ContractSummaryRow \<Rightarrow> json" where
  "summary_row_json r =
     JObj [(''customer'', JStr (row_customer r)),
           (''merchant_id'', JStr (row_merchant_id r)),
           (''receivable'', JNum (Finite (row_total_receivable r))),
           (''income'', JNum (Finite (row_total_income r))),
           (''bank_matched'', JNum (Finite (row_bank_matched r))),
           (''invoice_matched'', JNum (Finite (row_invoice_matched r))),
           (''notes'', JStr (row_validation_notes r))]"

definition build_response ::
  "ContractSummaryRow list \<Rightarrow> nat list \<Rightarrow> nat list \<Rightarrow> nat list \<Rightarrow> json" where
  "build_response rows lease_wb single_wb income_wb =
     JObj [(''summary'', JArr (map summary_row_json rows)),
           (''total_receivable'', JNum (Finite (\<Sum>r \<leftarrow> rows. row_total_receivable r))),
           (''total_income'', JNum (Finite (\<Sum>r \<leftarrow> rows. row_total_income r))),
           (''contract_count'', JNum (Finite (of_nat (length rows)))),
           (''files'', JObj [(''lease'', JStr (b64_encode lease_wb)),
                            (''single'', JStr (b64_encode single_wb)),
                            (''income'', JStr (b64_encode income_wb))])]"

text \<open>The row of the page that a row of the specification becomes.\<close>

definition declared_row :: "ContractSummaryRow \<Rightarrow> ContractSummary" where
  "declared_row r =
     \<lparr>customer = row_customer r, merchant_id = row_merchant_id r,
      receivable = Finite (row_total_receivable r), income = Finite (row_total_income r),
      bank_matched = Finite (row_bank_matched r),
      invoice_matched = Finite (row_invoice_matched r),
      row_notes = row_validation_notes r\<rparr>"

section \<open>Properties\<close>

subsection \<open>Decimal digits\<close>

lemma digit_val_digit_char: "d < 10 \<Longrightarrow> digit_val (digit_char d) = Some d"
proof -
  assume "d < 10"
  then have "d \<in> {0, 1, 2, 3, 4, 5, 6, 7, 8, 9}" by auto
  then show ?thesis
    by (auto simp: digit_val_def digit_char_def)
qed

lemma digits_1: "n < 10 \<Longrightarrow> digits n = [digit_char n]"
  by (simp add: digits.simps)

lemma digits_2:
  "10 \<le> n \<Longrightarrow> n < 100 \<Longrightarrow> digits n = [digit_char (n div 10), digit_char (n mod 10)]"
  by (subst digits.simps) (simp add: digits_1)

lemma digits_4:
  assumes "1000 \<le> n" "n < 10000"
  shows "digits n = [digit_char (n div 1000), digit_char (n div 100 mod 10),
                     digit_char (n div 10 mod 10), digit_char (n mod 10)]"
proof -
  have a: "digits n = digits (n div 10) @ [digit_char (n mod 10)]"
    using assms by (subst digits.simps) simp
  have "\<not> n div 10 < 10" using assms by arith
  then have b: "digits (n div 10) = digits (n div 100) @ [digit_char (n div 10 mod 10)]"
    using digits.simps[of "n div 10"] by (simp add: div_mult2_eq[symmetric])
  have "10 \<le> n div 100" "n div 100 < 100" using assms by arith+
  then have c: "digits (n div 100) = [digit_char (n div 1000), digit_char (n div 100 mod 10)]"
    using digits_2[of "n div 100"] by (simp add: div_mult2_eq[symmetric])
  show ?thesis by (simp add: a b c)
qed

lemma four_digit_value:
  "(y::nat) div 1000 * 1000 + y div 100 mod 10 * 100 + y div 10 mod 10 * 10 + y mod 10 = y"
proof -
  have b: "y div 100 = y div 10 div 10" and c: "y div 1000 = y div 10 div 10 div 10"
    by (simp_all add: div_mult2_eq[symmetric])
  have "y = y div 10 * 10 + y mod 10" by simp
  moreover have "y div 10 = y div 10 div 10 * 10 + y div 10 mod 10" by simp
  moreover have "y div 10 div 10 = y div 10 div 10 div 10 * 10 + y div 10 div 10 mod 10"
    by simp
  ultimately show ?thesis unfolding b c by linarith
qed

text \<open>A four-digit year, a hyphen and a month padded to two digits read back as that
  year and month.\<close>

lemma parse_year_month:
  assumes "1000 \<le> y" "y < 10000" "1 \<le> m" "m \<le> 12"
  shows "parse_month (digits y @ ''-'' @ padStart 2 CHR ''0'' (digits m)) = Some (y, m)"
proof -
  have y: "y div 1000 < 10" "y div 100 mod 10 < 10" "y div 10 mod 10 < 10" "y mod 10 < 10"
    using assms by auto
  show ?thesis
  proof (cases "m < 10")
    case True
    then have "padStart 2 CHR ''0'' (digits m) = [CHR ''0'', digit_char m]"
      by (simp add: padStart_def digits_1)
    moreover have "digit_val CHR ''0'' = Some 0" by (simp add: digit_val_def)
    ultimately show ?thesis using assms True y four_digit_value[of y]
      by (simp add: digits_4 digit_val_digit_char)
  next
    case False
    then have "padStart 2 CHR ''0'' (digits m) = [digit_char (m div 10), digit_char (m mod 10)]"
      using assms by (simp add: padStart_def digits_2)
    moreover have "m div 10 < 10" "m mod 10 < 10" "m div 10 * 10 + m mod 10 = m"
      using assms by auto
    ultimately show ?thesis using assms False y four_digit_value[of y]
      by (simp add: digits_4 digit_val_digit_char)
  qed
qed

subsection \<open>The claims\<close>

text \<open>
  C8. For a file whose name does not end in ".xlsx", handleFileSelect leaves the stored
  file as it was and sets the status to "error" with a message (the other cells keep
  their values too); for a file whose name ends in ".xlsx" it stores the file, sets the
  status to "idle", clears the error message and clears the result.
\<close>

theorem handleFileSelect_cases:
  "(\<not> endsWith (name f) ''.xlsx'' \<longrightarrow>
      file_sel (handleFileSelect f st) = file_sel st \<and>
      status (handleFileSelect f st) = Error \<and>
      errorMsg (handleFileSelect f st) = MsgNotXlsx \<and>
      errorMsg (handleFileSelect f st) \<noteq> MsgEmpty \<and>
      handleFileSelect f st = st\<lparr>errorMsg := MsgNotXlsx, status := Error\<rparr>) \<and>
   (endsWith (name f) ''.xlsx'' \<longrightarrow>
      file_sel (handleFileSelect f st) = Some f \<and>
      status (handleFileSelect f st) = Idle \<and>
      errorMsg (handleFileSelect f st) = MsgEmpty \<and>
      result (handleFileSelect f st) = None)"
  by (simp add: handleFileSelect_def)

theorem handleFileSelect_cases_witness:
  "\<not> endsWith (name \<lparr>name = ''a.csv'', fsize = 10\<rparr>) ''.xlsx'' \<and>
   file_sel (handleFileSelect \<lparr>name = ''a.csv'', fsize = 10\<rparr>
               (Home_initial \<lparr>getFullYear = 2026, getMonth = 10\<rparr>)) = None \<and>
   status (handleFileSelect \<lparr>name = ''a.csv'', fsize = 10\<rparr>
               (Home_initial \<lparr>getFullYear = 2026, getMonth = 10\<rparr>)) = Error \<and>
   endsWith (name \<lparr>name = ''b.xlsx'', fsize = 10\<rparr>) ''.xlsx'' \<and>
   file_sel (handleFileSelect \<lparr>name = ''b.xlsx'', fsize = 10\<rparr>
               (Home_initial \<lparr>getFullYear = 2026, getMonth = 10\<rparr>))
     = Some \<lparr>name = ''b.xlsx'', fsize = 10\<rparr> \<and>
   status (handleFileSelect \<lparr>name = ''b.xlsx'', fsize = 10\<rparr>
               (Home_initial \<lparr>getFullYear = 2026, getMonth = 10\<rparr>)) = Idle"
  using
    handleFileSelect_cases [of "\<lparr>name = ''a.csv'', fsize = 10\<rparr>"
      "Home_initial \<lparr>getFullYear = 2026, getMonth = 10\<rparr>"]
    handleFileSelect_cases [of "\<lparr>name = ''b.xlsx'', fsize = 10\<rparr>"
      "Home_initial \<lparr>getFullYear = 2026, getMonth = 10\<rparr>"]
  by (simp add: endsWith_def Home_initial_def)

text \<open>
  C9. When no file is selected, or the start month or the end month is empty,
  handleSubmit sends no request and sets the status to "error" with a message (the one
  for the missing file first, else the one for the months); whenever it sends a
  request, a file and both months are present.
\<close>

theorem handleSubmit_guard:
  "(file_sel st = None \<or> startMonth st = [] \<or> endMonth st = [] \<longrightarrow>
      snd (handleSubmit fetch st) = [] \<and>
      status (fst (handleSubmit fetch st)) = Error \<and>
      errorMsg (fst (handleSubmit fetch st)) =
        (if file_sel st = None then MsgNoFile else MsgNoMonths) \<and>
      result (fst (handleSubmit fetch st)) = result st) \<and>
   (snd (handleSubmit fetch st) \<noteq> [] \<longrightarrow>
      file_sel st \<noteq> None \<and> startMonth st \<noteq> [] \<and> endMonth st \<noteq> [])"
  by (auto simp: handleSubmit_def Let_def split: option.splits)

theorem handleSubmit_guard_witness:
  "file_sel (Home_initial \<lparr>getFullYear = 2026, getMonth = 10\<rparr>) = None \<and>
   snd (handleSubmit (\<lambda>r. Throws NonError)
          (Home_initial \<lparr>getFullYear = 2026, getMonth = 10\<rparr>)) = [] \<and>
   status (fst (handleSubmit (\<lambda>r. Throws NonError)
          (Home_initial \<lparr>getFullYear = 2026, getMonth = 10\<rparr>))) = Error \<and>
   snd (handleSubmit (\<lambda>r. Throws NonError)
          (handleFileSelect \<lparr>name = ''b.xlsx'', fsize = 10\<rparr>
             (Home_initial \<lparr>getFullYear = 2026, getMonth = 10\<rparr>))) \<noteq> [] \<and>
   file_sel (handleFileSelect \<lparr>name = ''b.xlsx'', fsize = 10\<rparr>
             (Home_initial \<lparr>getFullYear = 2026, getMonth = 10\<rparr>)) \<noteq> None"
  using
    handleSubmit_guard [of "Home_initial \<lparr>getFullYear = 2026, getMonth = 10\<rparr>"
      "\<lambda>r. Throws NonError"]
    handleSubmit_guard [of "handleFileSelect \<lparr>name = ''b.xlsx'', fsize = 10\<rparr>
             (Home_initial \<lparr>getFullYear = 2026, getMonth = 10\<rparr>)"
      "\<lambda>r. Throws NonError"]
  by (simp add: Home_initial_def handleFileSelect_def endsWith_def handleSubmit_def
        getDefaultDates_def String_of_int_def padStart_def digits.simps digit_char_def)

text \<open>
  C10, as stated, fails: in December of the year 9999 the end of the default range is
  "10000-01", which is no \<open>YYYY-MM\<close> string (the year is written as it is, with no
  fixed width).
\<close>

theorem getDefaultDates_year_10000:
  "end' (getDefaultDates \<lparr>getFullYear = 9999, getMonth = 11\<rparr>) = ''10000-01'' \<and>
   parse_month (end' (getDefaultDates \<lparr>getFullYear = 9999, getMonth = 11\<rparr>)) = None"
  by (simp add: getDefaultDates_def String_of_int_def padStart_def digits.simps digit_char_def)

text \<open>
  C10, amended. For every current date whose year has four digits (1000 to 9999),
  December 9999 excepted, getDefaultDates returns two well-formed \<open>YYYY-MM\<close> strings:
  the start denotes the current month and the end the calendar month right after it
  (month 01 of the next year when the current month is December), and both months lie
  between 01 and 12.
\<close>

theorem getDefaultDates_months:
  assumes m: "getMonth now < 12"
    and y: "1000 \<le> getFullYear now" "getFullYear now \<le> 9999"
    and e: "getFullYear now = 9999 \<longrightarrow> getMonth now \<noteq> 11"
  shows "parse_month (start (getDefaultDates now))
           = Some (nat (getFullYear now), getMonth now + 1) \<and>
         parse_month (end' (getDefaultDates now))
           = Some (next_month (nat (getFullYear now), getMonth now + 1)) \<and>
         (getMonth now = 11 \<longrightarrow>
            parse_month (end' (getDefaultDates now)) = Some (nat (getFullYear now) + 1, 1)) \<and>
         1 \<le> snd (next_month (nat (getFullYear now), getMonth now + 1)) \<and>
         snd (next_month (nat (getFullYear now), getMonth now + 1)) \<le> 12"
proof -
  let ?y = "nat (getFullYear now)"
  have sy: "String_of_int (getFullYear now) = digits ?y"
    using y by (simp add: String_of_int_def)
  have sm: "String_of_int (int (getMonth now) + 1) = digits (getMonth now + 1)"
    by (simp add: String_of_int_def nat_add_distrib)
  have st: "parse_month (start (getDefaultDates now)) = Some (?y, getMonth now + 1)"
    using m y parse_year_month[of ?y "getMonth now + 1"]
    by (simp add: getDefaultDates_def Let_def sy sm)
  have en: "parse_month (end' (getDefaultDates now)) = Some (next_month (?y, getMonth now + 1))"
  proof (cases "getMonth now = 11")
    case True
    then have lt: "getFullYear now < 9999" using e y by simp
    then have "String_of_int (getFullYear now + 1) = digits (?y + 1)"
      using y by (simp add: String_of_int_def nat_add_distrib)
    moreover have "String_of_int 1 = digits 1" by (simp add: String_of_int_def)
    ultimately show ?thesis
      using True y lt parse_year_month[of "?y + 1" 1]
      by (simp add: getDefaultDates_def Let_def next_month_def)
  next
    case False
    then have lt: "getMonth now < 11" using m by simp
    have "String_of_int (int (getMonth now) + 2) = digits (getMonth now + 2)"
      by (simp add: String_of_int_def nat_add_distrib)
    then show ?thesis
      using lt y parse_year_month[of ?y "getMonth now + 2"]
      by (simp add: getDefaultDates_def Let_def next_month_def sy)
  qed
  have rg: "1 \<le> snd (next_month (?y, getMonth now + 1)) \<and>
            snd (next_month (?y, getMonth now + 1)) \<le> 12"
    using m by (simp add: next_month_def)
  show ?thesis using st en rg by (simp add: next_month_def)
qed

theorem getDefaultDates_months_witness:
  "start (getDefaultDates \<lparr>getFullYear = 2026, getMonth = 11\<rparr>) = ''2026-12'' \<and>
   end' (getDefaultDates \<lparr>getFullYear = 2026, getMonth = 11\<rparr>) = ''2027-01'' \<and>
   parse_month ''2026-12'' = Some (2026, 12) \<and>
   parse_month ''2027-01'' = Some (2027, 1)"
proof -
  have s: "start (getDefaultDates \<lparr>getFullYear = 2026, getMonth = 11\<rparr>) = ''2026-12''"
    and e: "end' (getDefaultDates \<lparr>getFullYear = 2026, getMonth = 11\<rparr>) = ''2027-01''"
    by (simp_all add: getDefaultDates_def String_of_int_def padStart_def digits.simps
          digit_char_def)
  show ?thesis
    using getDefaultDates_months [of "\<lparr>getFullYear = 2026, getMonth = 11\<rparr>"]
    by (simp add: s e next_month_def)
qed

text \<open>
  C3. With the dates and the rent amounts of a contract fixed, its total income over a
  range of months (the full lease term included) is the same for every value of
  free_rent_days, and so is the total contract value that is amortized: the
  amortization counts the free-rent days like all others.
\<close>

theorem income_free_rent_invariant:
  "contract_total_income (c\<lparr>free_rent_days := f\<rparr>) s e = contract_total_income c s e \<and>
   contract_total_income (c\<lparr>free_rent_days := f\<rparr>) s e
     = contract_total_income (c\<lparr>free_rent_days := g\<rparr>) s e \<and>
   total_contract_value (c\<lparr>free_rent_days := f\<rparr>) = total_contract_value c"
proof -
  have r: "rent_amount_for (c\<lparr>free_rent_days := h\<rparr>) = rent_amount_for c" for h
    by (rule ext) (simp add: rent_amount_for_def cong: if_cong)
  have y: "contract_year_of (c\<lparr>free_rent_days := h\<rparr>) = contract_year_of c" for h
    by (rule ext) (simp add: contract_year_of_def del: day_number.simps)
  have v: "total_contract_value (c\<lparr>free_rent_days := h\<rparr>) = total_contract_value c" for h
    by (simp add: total_contract_value_def r y del: day_number.simps)
  have d: "daily_income_rate (c\<lparr>free_rent_days := h\<rparr>) = daily_income_rate c" for h
    by (simp add: daily_income_rate_def total_lease_days_def v del: day_number.simps)
  have m: "month_income (c\<lparr>free_rent_days := h\<rparr>) = month_income c" for h
    by (rule ext) (simp add: month_income_def term_days_in_month_def d del: day_number.simps)
  have t: "contract_total_income (c\<lparr>free_rent_days := h\<rparr>) s e = contract_total_income c s e"
    for h
    by (simp add: contract_total_income_def m)
  show ?thesis by (simp add: t v)
qed




text \<open>Month strings, first-of-month dates and the months of a range.\<close>

lemma parse_month_Some:
  assumes "parse_month s = Some (y, m)"
  shows "length s = 7 \<and> 1 \<le> m \<and> m \<le> 12"
  using assms
  by (induction s rule: parse_month.induct)
     (auto split: Option.bind_splits if_splits)

lemma parse_month_first_day:
  assumes "parse_month s = Some (y, m)"
  shows "parse_iso_date (s @ ''-01'') = Some (y, m, 1)"
proof -
  have l: "length s = 7" using parse_month_Some[OF assms] by simp
  have d: "digit_val CHR ''0'' = Some 0" "digit_val CHR ''1'' = Some 1"
    by (simp_all add: digit_val_def)
  have dm: "1 \<le> days_in_month y m" by (simp add: days_in_month_def)
  show ?thesis
    using assms l d dm by (simp add: parse_iso_date_def nth_append)
qed

lemma month_of_index_inverse:
  "1 \<le> snd ym \<Longrightarrow> snd ym \<le> 12 \<Longrightarrow> month_of_index (month_index ym) = ym"
proof -
  assume a: "1 \<le> snd ym" "snd ym \<le> 12"
  obtain y k where ym: "ym = (y, Suc k)" and k: "k < 12"
    using a by (cases ym, cases "snd ym") auto
  have "month_index ym = y * 12 + k" by (simp add: ym month_index_def)
  then show ?thesis using k by (simp add: month_of_index_def ym)
qed

lemma months_in_range_ends:
  assumes "1 \<le> snd s" "snd s \<le> 12" "1 \<le> snd e" "snd e \<le> 12"
    and "month_index s \<le> month_index e"
  shows "hd (months_in_range s e) = s \<and> last (months_in_range s e) = e \<and>
         length (months_in_range s e) = month_index e - month_index s + 1"
proof -
  have ne: "[month_index s..<Suc (month_index e)] \<noteq> []" using assms by simp
  have h: "hd [month_index s..<Suc (month_index e)] = month_index s"
    using assms by (simp add: upt_rec)
  have "hd (months_in_range s e) = month_of_index (month_index s)"
    unfolding months_in_range_def using ne h by (simp add: hd_map del: upt_Suc)
  moreover have "last (months_in_range s e) = month_of_index (month_index e)"
    unfolding months_in_range_def using assms by (simp add: last_map)
  ultimately show ?thesis
    using assms by (simp add: month_of_index_inverse months_in_range_def)
qed

text \<open>
  C5. A submitted request carries, besides the file, the form fields start and end (the
  start_month and end_month of the specification), each the chosen month string with
  "-01" appended; for chosen values of the form \<open>YYYY-MM\<close> these are the ISO dates of
  the first day of the chosen months. The range is inclusive at both ends: the months
  of the range, as the engine of the specification takes them, begin with the start
  month and end with the end month.
\<close>

theorem handleSubmit_request:
  assumes f: "file_sel st = Some f"
    and sm: "parse_month (startMonth st) = Some s"
    and em: "parse_month (endMonth st) = Some e"
  shows "snd (handleSubmit fetch st) = [build_request f (startMonth st) (endMonth st)] \<and>
     body (build_request f (startMonth st) (endMonth st))
       = [(''file'', FileValue f),
          (''start'', TextValue (startMonth st @ ''-01'')),
          (''end'', TextValue (endMonth st @ ''-01''))] \<and>
     parse_iso_date (startMonth st @ ''-01'') = Some (fst s, snd s, 1) \<and>
     parse_iso_date (endMonth st @ ''-01'') = Some (fst e, snd e, 1) \<and>
     (month_index s \<le> month_index e \<longrightarrow>
        hd (months_in_range s e) = s \<and> last (months_in_range s e) = e \<and>
        s \<in> set (months_in_range s e) \<and> e \<in> set (months_in_range s e))"
proof -
  have ls: "length (startMonth st) = 7" "1 \<le> snd s" "snd s \<le> 12"
    using parse_month_Some[of "startMonth st" "fst s" "snd s"] sm by simp_all
  have le: "length (endMonth st) = 7" "1 \<le> snd e" "snd e \<le> 12"
    using parse_month_Some[of "endMonth st" "fst e" "snd e"] em by simp_all
  have ne: "startMonth st \<noteq> []" "endMonth st \<noteq> []" using ls le by auto
  have req: "snd (handleSubmit fetch st) = [build_request f (startMonth st) (endMonth st)]"
    using f ne by (simp add: handleSubmit_def Let_def)
  have ps: "parse_iso_date (startMonth st @ ''-01'') = Some (fst s, snd s, 1)"
    using parse_month_first_day[of "startMonth st" "fst s" "snd s"] sm by simp
  have pe: "parse_iso_date (endMonth st @ ''-01'') = Some (fst e, snd e, 1)"
    using parse_month_first_day[of "endMonth st" "fst e" "snd e"] em by simp
  have incl: "hd (months_in_range s e) = s \<and> last (months_in_range s e) = e \<and>
        s \<in> set (months_in_range s e) \<and> e \<in> set (months_in_range s e)"
    if i: "month_index s \<le> month_index e"
  proof -
    have m: "hd (months_in_range s e) = s" "last (months_in_range s e) = e"
      "months_in_range s e \<noteq> []"
      using months_in_range_ends[OF ls(2,3) le(2,3) i] by auto
    then show ?thesis using hd_in_set[of "months_in_range s e"] last_in_set[of "months_in_range s e"]
      by simp
  qed
  show ?thesis using req ps pe incl by (simp add: build_request_def)
qed

theorem handleSubmit_request_witness:
  "snd (handleSubmit (\<lambda>r. Throws NonError)
          (handleFileSelect \<lparr>name = ''b.xlsx'', fsize = 10\<rparr>
             (Home_initial \<lparr>getFullYear = 2026, getMonth = 10\<rparr>)))
     = [\<lparr>url = ''/api/calculate'', http_method = ''POST'',
         body = [(''file'', FileValue \<lparr>name = ''b.xlsx'', fsize = 10\<rparr>),
                 (''start'', TextValue ''2026-11-01''),
                 (''end'', TextValue ''2026-12-01'')]\<rparr>] \<and>
   parse_iso_date ''2026-11-01'' = Some (2026, 11, 1) \<and>
   parse_iso_date ''2026-12-01'' = Some (2026, 12, 1) \<and>
   months_in_range (2026, 11) (2026, 12) = [(2026, 11), (2026, 12)]"
proof -
  let ?st = "handleFileSelect \<lparr>name = ''b.xlsx'', fsize = 10\<rparr>
             (Home_initial \<lparr>getFullYear = 2026, getMonth = 10\<rparr>)"
  have f: "file_sel ?st = Some \<lparr>name = ''b.xlsx'', fsize = 10\<rparr>"
    by (simp add: handleFileSelect_def endsWith_def)
  have sm: "startMonth ?st = ''2026-11''" and em: "endMonth ?st = ''2026-12''"
    by (simp_all add: handleFileSelect_def endsWith_def Home_initial_def getDefaultDates_def
          String_of_int_def padStart_def digits.simps digit_char_def)
  have ps: "parse_month (startMonth ?st) = Some (2026, 11)"
    and pe: "parse_month (endMonth ?st) = Some (2026, 12)"
    by (simp_all add: sm em digit_val_def)
  have r: "months_in_range (2026, 11) (2026, 12) = [(2026, 11), (2026, 12)]"
    by (simp add: months_in_range_def month_index_def month_of_index_def upt_rec)
  show ?thesis
    using handleSubmit_request [OF f ps pe, of "\<lambda>r. Throws NonError"]
    by (simp add: sm em r build_request_def)
qed



















text \<open>The binary64 number nearest to 1234.565 is \<open>5429674290981110 / 2^42\<close>: the
  numerator has 53 bits and the distance is at most half a unit in the last place.\<close>

lemma binary64_1234_565:
  "(2714837145490555 / 2199023255552 :: rat) = 5429674290981110 / 2 ^ 42 \<and>
   (2 :: nat) ^ 52 \<le> 5429674290981110 \<and> 5429674290981110 < (2 :: nat) ^ 53 \<and>
   \<bar>5429674290981110 / 2 ^ 42 - 1234565 / 1000 :: rat\<bar> \<le> 1 / 2 ^ 43"
  by simp





text \<open>Base64: what \<open>atob\<close> returns, the byte loop, and decoding an encoded stream.\<close>

lemma index_of_lt: "index_of c xs = Some i \<Longrightarrow> i < length xs"
  by (induction xs arbitrary: i) (auto split: if_splits)

lemma b64_value_lt: "b64_value c = Some v \<Longrightarrow> v < 64"
  using index_of_lt[of c b64_alphabet v] by (simp add: b64_value_def b64_alphabet_def)

lemma those_map_Some:
  "those (map f xs) = Some vs \<Longrightarrow> length vs = length xs \<and> (\<forall>i < length xs. f (xs ! i) = Some (vs ! i))"
proof (induction xs arbitrary: vs)
  case Nil
  then show ?case by simp
next
  case (Cons x xs)
  then obtain v vs' where v: "f x = Some v" and vs': "those (map f xs) = Some vs'"
    and e: "vs = v # vs'"
    by (auto split: option.splits)
  show ?case using Cons.IH[OF vs'] v e by (auto simp: nth_Cons split: nat.splits)
qed

lemma decode_sextets_lt:
  "\<forall>v \<in> set vs. v < 64 \<Longrightarrow> \<forall>b \<in> set (decode_sextets vs). b < 256"
proof (induction vs rule: decode_sextets.induct)
  case (1 a b c d rest)
  then have "a < 64" "b < 64" "c < 64" "d < 64" by simp_all
  then have "a * 4 + b div 16 < 256" "(b mod 16) * 16 + c div 4 < 256" "(c mod 4) * 64 + d < 256"
    by arith+
  then show ?case using 1 by simp
next
  case (2 a b c)
  then have "a < 64" "b < 64" "c < 64" by simp_all
  then have "a * 4 + b div 16 < 256" "(b mod 16) * 16 + c div 4 < 256"
    by arith+
  then show ?case by simp
next
  case (3 a b)
  then have "a < 64" "b < 64" by simp_all
  then have "a * 4 + b div 16 < 256" by arith
  then show ?case by simp
qed simp_all

lemma atob_codes:
  assumes "atob s = Inr binary"
  shows "\<forall>c \<in> set binary. c < 256"
proof -
  define d where "d = strip_padding (filter (\<lambda>c. \<not> ascii_whitespace c) s)"
  from assms obtain vs where vs: "those (map b64_value d) = Some vs"
    and b: "binary = decode_sextets vs"
    by (auto simp: atob_def Let_def d_def split: if_splits option.splits)
  have "\<forall>v \<in> set vs. v < 64"
  proof
    fix v assume "v \<in> set vs"
    then obtain i where i: "i < length vs" "vs ! i = v" by (auto simp: in_set_conv_nth)
    with those_map_Some[OF vs] have "b64_value (d ! i) = Some v" by auto
    then show "v < 64" by (rule b64_value_lt)
  qed
  then show ?thesis unfolding b by (rule decode_sextets_lt)
qed

lemma fill_bytes_eq:
  "i \<le> length binary \<Longrightarrow> length bytes = length binary \<Longrightarrow>
   fill_bytes binary bytes i = take i bytes @ map of_nat (drop i binary)"
proof (induction binary bytes i rule: fill_bytes.induct)
  case (1 binary bytes i)
  show ?case
  proof (cases "i < length binary")
    case True
    let ?b = "bytes[i := of_nat (binary ! i)]"
    have "fill_bytes binary bytes i = fill_bytes binary ?b (Suc i)"
      using True by (subst fill_bytes.simps) simp
    also have "\<dots> = take (Suc i) ?b @ map of_nat (drop (Suc i) binary)"
      using "1.IH"[OF True] True "1.prems" by simp
    also have "take (Suc i) ?b = take i bytes @ [of_nat (binary ! i)]"
      using True "1.prems" by (simp add: take_Suc_conv_app_nth)
    finally show ?thesis
      using True by (simp add: Cons_nth_drop_Suc[symmetric])
  next
    case False
    then have "i = length binary" using "1.prems" by simp
    then show ?thesis using "1.prems" by (subst fill_bytes.simps) simp
  qed
qed

lemma fill_bytes_all:
  "fill_bytes binary (replicate (length binary) 0) 0 = map of_nat binary"
  using fill_bytes_eq[of 0 binary "replicate (length binary) 0"] by simp

lemma index_of_nth: "distinct xs \<Longrightarrow> i < length xs \<Longrightarrow> index_of (xs ! i) xs = Some i"
proof (induction xs arbitrary: i)
  case Nil
  then show ?case by simp
next
  case (Cons x xs)
  show ?case
  proof (cases i)
    case 0
    then show ?thesis by simp
  next
    case (Suc j)
    then have "xs ! j \<noteq> x" using Cons.prems by auto
    then show ?thesis using Suc Cons by simp
  qed
qed

lemma distinct_b64_alphabet: "distinct b64_alphabet"
  by (simp add: b64_alphabet_def)

lemma length_b64_alphabet: "length b64_alphabet = 64"
  by (simp add: b64_alphabet_def)

lemma b64_value_char: "v < 64 \<Longrightarrow> b64_value (b64_char v) = Some v"
  using index_of_nth[OF distinct_b64_alphabet, of v]
  by (simp add: b64_value_def b64_char_def length_b64_alphabet)

lemma b64_char_plain:
  assumes "v < 64"
  shows "b64_char v \<noteq> CHR ''='' \<and> \<not> ascii_whitespace (b64_char v)"
proof -
  have "b64_char v \<in> set b64_alphabet"
    using assms by (simp add: b64_char_def length_b64_alphabet)
  moreover have "CHR ''='' \<notin> set b64_alphabet" by (simp add: b64_alphabet_def)
  moreover have "\<forall>c \<in> set b64_alphabet. \<not> ascii_whitespace c"
    by (simp add: b64_alphabet_def ascii_whitespace_def)
  ultimately show ?thesis by auto
qed

lemma sextet_bounds:
  fixes a b c :: nat
  assumes "b < 256" "c < 256" "a < 256"
  shows "a div 4 < 64" "(a mod 4) * 16 + b div 16 < 64" "(b mod 16) * 4 + c div 64 < 64"
    "c mod 64 < 64" "(b mod 16) * 4 < 64" "(a mod 4) * 16 < 64"
proof -
  have bound: "p * n + q < m" if "p \<le> p'" "q \<le> q'" "p' * n + q' < m" for p q p' q' n m :: nat
  proof -
    have "p * n \<le> p' * n" using that(1) by simp
    then show ?thesis using that(2,3) by linarith
  qed
  have m4: "a mod 4 \<le> 3" and m16: "b mod 16 \<le> 15"
    using mod_less_divisor[of 4 a] mod_less_divisor[of 16 b] by simp_all
  have d16: "b div 16 \<le> 15" and d64: "c div 64 \<le> 3"
    using assms by simp_all
  show "a div 4 < 64" using assms by simp
  show "(a mod 4) * 16 + b div 16 < 64" by (rule bound[OF m4 d16]) simp
  show "(b mod 16) * 4 + c div 64 < 64" by (rule bound[OF m16 d64]) simp
  show "c mod 64 < 64" by simp
  show "(b mod 16) * 4 < 64" using bound[OF m16 le_refl, of 4 0 64] by simp
  show "(a mod 4) * 16 < 64" using bound[OF m4 le_refl, of 16 0 64] by simp
qed

lemma sextets_lt: "\<forall>b \<in> set bs. b < 256 \<Longrightarrow> \<forall>v \<in> set (sextets bs). v < 64"
proof (induction bs rule: sextets.induct)
  case (1 a b c rest)
  then have "a < 256" "b < 256" "c < 256" by simp_all
  then show ?case using 1 sextet_bounds[of b c a] by simp
next
  case (2 a b)
  then have "a < 256" "b < 256" by simp_all
  then show ?case using sextet_bounds[of b 0 a] by simp
next
  case (3 a)
  then have "a < 256" by simp
  then show ?case using sextet_bounds[of 0 0 a] by simp
qed simp

lemma hi_lo:
  fixes q x n :: nat
  assumes "x < n"
  shows "(q * n + x) div n = q" "(q * n + x) mod n = x"
  using assms by simp_all

lemma byte1: "b < 256 \<Longrightarrow> a div 4 * 4 + ((a mod 4) * 16 + b div 16) div 16 = (a::nat)"
proof -
  assume "b < 256"
  then have "b div 16 < 16" by simp
  then have "((a mod 4) * 16 + b div 16) div 16 = a mod 4" by (rule hi_lo)
  then show ?thesis by simp
qed

lemma byte2:
  "b < 256 \<Longrightarrow> c < 256 \<Longrightarrow>
   (((a mod 4) * 16 + b div 16) mod 16) * 16 + ((b mod 16) * 4 + c div 64) div 4 = (b::nat)"
proof -
  assume "b < 256" "c < 256"
  then have "b div 16 < 16" "c div 64 < 4" by simp_all
  then have "((a mod 4) * 16 + b div 16) mod 16 = b div 16"
    "((b mod 16) * 4 + c div 64) div 4 = b mod 16"
    by (simp_all only: hi_lo)
  then show ?thesis by simp
qed

lemma byte3: "c < 256 \<Longrightarrow> (((b mod 16) * 4 + c div 64) mod 4) * 64 + c mod 64 = (c::nat)"
proof -
  assume "c < 256"
  then have "c div 64 < 4" by simp
  then have "((b mod 16) * 4 + c div 64) mod 4 = c div 64" by (rule hi_lo)
  then show ?thesis by simp
qed

lemma decode_sextets_sextets: "\<forall>b \<in> set bs. b < 256 \<Longrightarrow> decode_sextets (sextets bs) = bs"
proof (induction bs rule: sextets.induct)
  case (1 a b c rest)
  then have r: "decode_sextets (sextets rest) = rest" by simp
  have "b < 256" "c < 256" using 1(2) by simp_all
  then show ?case using r byte1[of b a] byte2[of b c a] byte3[of c b]
    by (simp del: mult_Suc_right)
next
  case (2 a b)
  then have "b < 256" by simp
  then show ?case using byte1[of b a] byte2[of b 0 a] by simp
next
  case (3 a)
  show ?case using byte1[of 0 a] by simp
qed simp

lemma those_map_inverse:
  "\<forall>x \<in> set xs. f (g x) = Some x \<Longrightarrow> those (map f (map g xs)) = Some xs"
  by (induction xs) simp_all

lemma length_sextets: "length (sextets bs) = length bs + (length bs + 2) div 3"
  by (induction bs rule: sextets.induct) simp_all

lemma strip_padding_encode:
  assumes "\<forall>b \<in> set bs. b < 256"
  shows "strip_padding (b64_encode bs) = map b64_char (sextets bs)"
proof -
  let ?E = "map b64_char (sextets bs)"
  let ?n = "length bs"
  have plain: "\<forall>c \<in> set ?E. c \<noteq> CHR ''=''"
    using sextets_lt[OF assms] b64_char_plain by auto
  have lastE: "?E \<noteq> [] \<Longrightarrow> last ?E \<noteq> CHR ''=''"
    using plain last_in_set[of ?E] by blast
  have len: "length ?E = ?n + (?n + 2) div 3" by (simp add: length_sextets)
  consider "?n mod 3 = 0" | "?n mod 3 = 1" | "?n mod 3 = 2" by linarith
  then show ?thesis
  proof cases
    case 1
    then have e: "b64_encode bs = ?E" by (simp add: b64_encode_def)
    show ?thesis unfolding e using lastE by (auto simp: strip_padding_def)
  next
    case 2
    then have e: "b64_encode bs = ?E @ ''==''" by (simp add: b64_encode_def numeral_2_eq_2)
    have "(length ?E + 2) mod 4 = 0" unfolding len using 2 by presburger
    then show ?thesis unfolding e by (simp add: strip_padding_def butlast_append)
  next
    case 3
    then have e: "b64_encode bs = ?E @ ''=''" by (simp add: b64_encode_def)
    have "(length ?E + 1) mod 4 = 0" unfolding len using 3 by presburger
    moreover have "0 < length ?E" unfolding len using 3 by presburger
    then have "?E \<noteq> []" by auto
    ultimately show ?thesis unfolding e using lastE by (simp add: strip_padding_def)
  qed
qed

lemma atob_b64_encode:
  assumes "\<forall>b \<in> set bs. b < 256"
  shows "atob (b64_encode bs) = Inr bs"
proof -
  let ?E = "map b64_char (sextets bs)"
  have plain: "\<forall>c \<in> set ?E. \<not> ascii_whitespace c"
    using sextets_lt[OF assms] b64_char_plain by auto
  have "\<forall>c \<in> set (b64_encode bs). \<not> ascii_whitespace c"
    using plain by (auto simp: b64_encode_def ascii_whitespace_def)
  then have f: "filter (\<lambda>c. \<not> ascii_whitespace c) (b64_encode bs) = b64_encode bs"
    by (intro filter_True) auto
  have l: "length ?E mod 4 \<noteq> 1"
    unfolding length_map length_sextets by presburger
  have t: "those (map b64_value ?E) = Some (sextets bs)"
    using sextets_lt[OF assms] by (intro those_map_inverse) (auto simp: b64_value_char)
  show ?thesis
    unfolding atob_def f strip_padding_encode[OF assms] Let_def
    using l t decode_sextets_sextets[OF assms] by simp
qed


text \<open>The response of the specification read as the declared result.\<close>

lemma as_ContractSummary_row: "as_ContractSummary (summary_row_json r) = Some (declared_row r)"
  by (simp add: as_ContractSummary_def summary_row_json_def declared_row_def member_def)

lemma those_rows:
  "those (map as_ContractSummary (map summary_row_json rows)) = Some (map declared_row rows)"
  by (induction rows) (simp_all add: as_ContractSummary_row)

lemma as_CalcResult_build_response:
  "as_CalcResult (build_response rows lease_wb single_wb income_wb)
   = Some \<lparr>summary = map declared_row rows,
           total_receivable = Finite (\<Sum>r \<leftarrow> rows. row_total_receivable r),
           total_income = Finite (\<Sum>r \<leftarrow> rows. row_total_income r),
           contract_count = Finite (of_nat (length rows)),
           files = \<lparr>lease_b64 = b64_encode lease_wb, single_b64 = b64_encode single_wb,
                    income_b64 = b64_encode income_wb\<rparr>\<rparr>"
  by (simp add: as_CalcResult_def build_response_def member_def those_rows as_Files_def
        del: map_map)

text \<open>
  C1. The response of a successful calculation, as the specification describes it,
  is an object with the members contract_count, total_receivable, total_income,
  summary (an array with one row per contract) and files (an object with the three
  strings lease, single and income), and with no error member: it has the shape of
  \<open>CalcResult\<close>, each of its three strings decodes with \<open>atob\<close> to the bytes of its
  workbook, and the page, receiving it with an ok status, stores it as the result and
  sets the status to "done".
\<close>

theorem response_has_CalcResult_shape:
  "(\<exists>r. as_CalcResult (build_response rows lease_wb single_wb income_wb) = Some r \<and>
        length (summary r) = length rows \<and>
        contract_count r = Finite (of_nat (length rows)) \<and>
        ((\<forall>b \<in> set lease_wb \<union> set single_wb \<union> set income_wb. b < 256) \<longrightarrow>
           atob (lease_b64 (files r)) = Inr lease_wb \<and>
           atob (single_b64 (files r)) = Inr single_wb \<and>
           atob (income_b64 (files r)) = Inr income_wb)) \<and>
   (\<exists>kvs fs. build_response rows lease_wb single_wb income_wb = JObj kvs \<and>
        member ''contract_count'' kvs \<noteq> None \<and>
        member ''total_receivable'' kvs \<noteq> None \<and>
        member ''total_income'' kvs \<noteq> None \<and>
        (\<exists>vs. member ''summary'' kvs = Some (JArr vs) \<and> length vs = length rows) \<and>
        member ''files'' kvs = Some (JObj fs) \<and>
        (\<exists>l. member ''lease'' fs = Some (JStr l)) \<and>
        (\<exists>s. member ''single'' fs = Some (JStr s)) \<and>
        (\<exists>i. member ''income'' fs = Some (JStr i)) \<and>
        member ''error'' kvs = None) \<and>
   after_fetch (Returns \<lparr>ok = True, http_status = 200,
        json_result = Returns (build_response rows lease_wb single_wb income_wb)\<rparr>) st
     = st\<lparr>result := Some (build_response rows lease_wb single_wb income_wb), status := Done\<rparr>"
proof -
  have a: "\<exists>r. as_CalcResult (build_response rows lease_wb single_wb income_wb) = Some r \<and>
        length (summary r) = length rows \<and>
        contract_count r = Finite (of_nat (length rows)) \<and>
        ((\<forall>b \<in> set lease_wb \<union> set single_wb \<union> set income_wb. b < 256) \<longrightarrow>
           atob (lease_b64 (files r)) = Inr lease_wb \<and>
           atob (single_b64 (files r)) = Inr single_wb \<and>
           atob (income_b64 (files r)) = Inr income_wb)"
    by (simp add: as_CalcResult_build_response atob_b64_encode)
  have b: "\<exists>kvs fs. build_response rows lease_wb single_wb income_wb = JObj kvs \<and>
        member ''contract_count'' kvs \<noteq> None \<and>
        member ''total_receivable'' kvs \<noteq> None \<and>
        member ''total_income'' kvs \<noteq> None \<and>
        (\<exists>vs. member ''summary'' kvs = Some (JArr vs) \<and> length vs = length rows) \<and>
        member ''files'' kvs = Some (JObj fs) \<and>
        (\<exists>l. member ''lease'' fs = Some (JStr l)) \<and>
        (\<exists>s. member ''single'' fs = Some (JStr s)) \<and>
        (\<exists>i. member ''income'' fs = Some (JStr i)) \<and>
        member ''error'' kvs = None"
    by (simp add: build_response_def member_def)
  have c: "after_fetch (Returns \<lparr>ok = True, http_status = 200,
        json_result = Returns (build_response rows lease_wb single_wb income_wb)\<rparr>) st
     = st\<lparr>result := Some (build_response rows lease_wb single_wb income_wb), status := Done\<rparr>"
    by (simp add: after_fetch_def build_response_def member_def)
  show ?thesis using a b c by blast
qed

theorem response_has_CalcResult_shape_witness:
  "(\<exists>r. as_CalcResult
          (build_response
             [\<lparr>row_customer = ''ABC Co'', row_merchant_id = ''B1-01c'',
               row_total_receivable = 24600, row_total_income = 24600,
               row_bank_matched = 0, row_invoice_matched = 0,
               row_validation_notes = []\<rparr>]
             [80, 75] [] [1, 2, 3]) = Some r \<and>
        contract_count r = Finite 1 \<and>
        atob (lease_b64 (files r)) = Inr [80, 75] \<and>
        atob (income_b64 (files r)) = Inr [1, 2, 3])"
proof -
  have h: "\<forall>b \<in> set [80, 75] \<union> set [] \<union> set [1, 2, 3]. b < (256 :: nat)" by simp
  show ?thesis
    using h response_has_CalcResult_shape
      [of "[\<lparr>row_customer = ''ABC Co'', row_merchant_id = ''B1-01c'',
               row_total_receivable = 24600, row_total_income = 24600,
               row_bank_matched = 0, row_invoice_matched = 0,
               row_validation_notes = []\<rparr>]" "[80, 75]" "[]" "[1, 2, 3]"]
    by auto
qed

text \<open>
  C6. A summary row has the seven fields customer, merchant id, total receivable, total
  income, bank-matched total, invoice-matched total and notes. When the status is
  "done" and the result has the declared shape, the page shows the results block; its
  table, present when the summary is not empty, has the seven columns and one row for
  every row of the summary, in the order of the summary, each with its seven cells: the
  two strings, the four amounts through formatMoney, and the notes.
\<close>

theorem summary_table_rows:
  assumes "status st = Done" and "result st = Some d" and "as_CalcResult d = Some r"
  shows "\<exists>b. Home_results st = Shown b \<and>
     (summary r = [] \<longrightarrow> detail_table b = None) \<and>
     (summary r \<noteq> [] \<longrightarrow>
        (\<exists>rows. detail_table b = Some (table_head, rows) \<and>
           length table_head = 7 \<and>
           length rows = length (summary r) \<and>
           (\<forall>i < length (summary r).
              rows ! i =
                [Text (customer (summary r ! i)),
                 Text (merchant_id (summary r ! i)),
                 Money (formatMoney (Some (receivable (summary r ! i)))),
                 Money (formatMoney (Some (income (summary r ! i)))),
                 Money (formatMoney (Some (bank_matched (summary r ! i)))),
                 Money (formatMoney (Some (invoice_matched (summary r ! i)))),
                 Text (row_notes (summary r ! i))])))"
proof -
  obtain kvs where "d = JObj kvs"
    using assms(3) by (cases d) (simp_all add: as_CalcResult_def)
  then have "truthy d" by simp
  then have h: "Home_results st = Shown (render_results r)"
    using assms by (simp add: Home_results_def)
  have t: "table_row row =
       [Text (customer row), Text (merchant_id row),
        Money (formatMoney (Some (receivable row))),
        Money (formatMoney (Some (income row))),
        Money (formatMoney (Some (bank_matched row))),
        Money (formatMoney (Some (invoice_matched row))),
        Text (row_notes row)]" for row
    by (simp add: table_row_def)
  show ?thesis
    unfolding h by (simp add: render_results_def table_head_def t)
qed

theorem summary_table_rows_witness:
  "\<exists>b rows.
     Home_results
       ((Home_initial \<lparr>getFullYear = 2026, getMonth = 10\<rparr>)
          \<lparr>result := Some (build_response
             [\<lparr>row_customer = ''ABC Co'', row_merchant_id = ''B1-01c'',
               row_total_receivable = 24600, row_total_income = 24600,
               row_bank_matched = 0, row_invoice_matched = 0,
               row_validation_notes = []\<rparr>,
              \<lparr>row_customer = ''XYZ'', row_merchant_id = ''B2'',
               row_total_receivable = 1, row_total_income = 2,
               row_bank_matched = 3, row_invoice_matched = 4,
               row_validation_notes = ''check''\<rparr>] [] [] []),
           status := Done\<rparr>) = Shown b \<and>
     detail_table b = Some (table_head, rows) \<and> length rows = 2 \<and>
     rows ! 1 = [Text ''XYZ'', Text ''B2'',
                 Money (formatMoney (Some (Finite 1))), Money (formatMoney (Some (Finite 2))),
                 Money (formatMoney (Some (Finite 3))), Money (formatMoney (Some (Finite 4))),
                 Text ''check'']"
proof -
  let ?rows = "[\<lparr>row_customer = ''ABC Co'', row_merchant_id = ''B1-01c'',
               row_total_receivable = 24600, row_total_income = 24600,
               row_bank_matched = 0, row_invoice_matched = 0,
               row_validation_notes = []\<rparr>,
              \<lparr>row_customer = ''XYZ'', row_merchant_id = ''B2'',
               row_total_receivable = 1, row_total_income = 2,
               row_bank_matched = 3, row_invoice_matched = 4,
               row_validation_notes = ''check''\<rparr>]"
  let ?d = "build_response ?rows [] [] []"
  let ?st = "(Home_initial \<lparr>getFullYear = 2026, getMonth = 10\<rparr>)
               \<lparr>result := Some ?d, status := Done\<rparr>"
  have 1: "status ?st = Done" and 2: "result ?st = Some ?d" by simp_all
  note 3 = as_CalcResult_build_response [of ?rows "[]" "[]" "[]"]
  show ?thesis
    using summary_table_rows [OF 1 2 3]
    by (auto simp: declared_row_def)
qed

text \<open>
  C7. The result carries three separate base64 strings (lease, single, income), and
  each download button passes its own string and file name to downloadBase64. For a
  string that \<open>atob\<close> decodes, downloadBase64 saves a blob of the xlsx type under the
  given name whose bytes are, one for one, the character codes of the decoded string
  (all below 256, so none is cut by the byte array); for a string that \<open>atob\<close>
  rejects it throws and saves nothing.
\<close>

theorem downloadBase64_bytes:
  "(atob b64 = Inr binary \<longrightarrow>
      (\<exists>d. downloadBase64 b64 filename = Inr d \<and>
           length (blob_bytes d) = length binary \<and>
           (\<forall>i < length binary. unat (blob_bytes d ! i) = binary ! i) \<and>
           blob_type d = ''application/vnd.openxmlformats-officedocument.spreadsheetml.sheet'' \<and>
           download_name d = filename)) \<and>
   (atob b64 = Inl e \<longrightarrow> downloadBase64 b64 filename = Inl e) \<and>
   click r DownloadLease = downloadBase64 (lease_b64 (files r)) ''lease.xlsx'' \<and>
   click r DownloadSingle = downloadBase64 (single_b64 (files r)) ''single.xlsx'' \<and>
   click r DownloadIncome = downloadBase64 (income_b64 (files r)) ''income.xlsx''"
proof -
  have "\<forall>i < length binary. unat (of_nat (binary ! i) :: 8 word) = binary ! i"
    if a: "atob b64 = Inr binary"
  proof (intro allI impI)
    fix i assume "i < length binary"
    then have "binary ! i < 256" using atob_codes[OF a] by simp
    then show "unat (of_nat (binary ! i) :: 8 word) = binary ! i"
      by (simp add: unat_of_nat take_bit_nat_eq_self)
  qed
  then show ?thesis
    by (auto simp: downloadBase64_def fill_bytes_all)
qed

theorem downloadBase64_bytes_witness:
  "atob ''TWFu'' = Inr [77, 97, 110] \<and>
   (\<exists>d. downloadBase64 ''TWFu'' ''lease.xlsx'' = Inr d \<and>
        length (blob_bytes d) = 3 \<and>
        unat (blob_bytes d ! 0) = 77 \<and> unat (blob_bytes d ! 2) = 110 \<and>
        download_name d = ''lease.xlsx'') \<and>
   atob ''TW-u'' = Inl InvalidCharacterError \<and>
   downloadBase64 ''TW-u'' ''lease.xlsx'' = Inl InvalidCharacterError"
proof -
  have a: "atob ''TWFu'' = Inr [77, 97, 110]"
    by (simp add: atob_def strip_padding_def ascii_whitespace_def b64_value_def
          b64_alphabet_def)
  have b: "atob ''TW-u'' = Inl InvalidCharacterError"
    by (simp add: atob_def strip_padding_def ascii_whitespace_def b64_value_def
          b64_alphabet_def)
  show ?thesis
    using a b
      downloadBase64_bytes [of "''TWFu''" "[77, 97, 110]" "''lease.xlsx''"]
      downloadBase64_bytes [of "''TW-u''" _ "''lease.xlsx''" InvalidCharacterError]
    by auto
qed

end
